theory Spec2Isabelle
  imports Complex_Main
begin

section \<open>Signal conditioning and spectral analysis (process_signal.py)\<close>

text \<open>
  The program works on numpy arrays of float64 samples. Samples, frequencies and powers
  are modelled as real numbers, arrays as lists. Every Python exception is a value of
  \<open>py_error\<close>, and a function that can raise returns \<open>py_error + 'a\<close>.
\<close>

datatype py_error = ValueError | ZeroDivisionError | IndexError

subsection \<open>The numpy operations used by the spectral analyser\<close>

text \<open>
  \<^verbatim>\<open>np.fft.fft(a)\<close> computes \<open>A[k] = sum_{m=0}^{n-1} a[m] * exp(-2 pi i m k / n)\<close> for
  \<open>k = 0 .. n-1\<close> and raises ValueError ("Invalid number of FFT data points") when
  \<open>n < 1\<close>.
\<close>

definition dft_coeff :: "real list \<Rightarrow> nat \<Rightarrow> complex" where
  "dft_coeff a k =
     sum_list (map (\<lambda>m. of_real (a ! m) * cis (- 2 * pi * real m * real k / real (length a)))
                   [0..<length a])"

definition np_fft :: "real list \<Rightarrow> py_error + complex list" where
  "np_fft a = (if length a < 1 then Inl ValueError
               else Inr (map (dft_coeff a) [0..<length a]))"

text \<open>
  \<^verbatim>\<open>np.fft.fftfreq(n, d)\<close>:
  \<^verbatim>\<open>
    val = 1.0 / (n * d)
    results = empty(n, int)
    N = (n-1)//2 + 1
    results[:N] = arange(0, N)
    results[N:] = arange(-(n//2), 0)
    return results * val
  \<close>
\<close>

definition np_fftfreq :: "nat \<Rightarrow> real \<Rightarrow> py_error + real list" where
  "np_fftfreq n d =
     (if real n * d = 0 then Inl ZeroDivisionError
      else let val = 1 / (real n * d);
               N = nat ((int n - 1) div 2 + 1);
               results = map int [0..<N] @ [- (int n div 2)..-1]
           in Inr (map (\<lambda>r. real_of_int r * val) results))"

text \<open>
  \<^verbatim>\<open>arr[mask]\<close> with a boolean mask keeps the entries whose mask bit is set; numpy raises
  IndexError when the mask and the array differ in length.
\<close>

definition np_bool_index :: "real list \<Rightarrow> bool list \<Rightarrow> py_error + real list" where
  "np_bool_index arr msk =
     (if length msk \<noteq> length arr then Inl IndexError
      else Inr (map fst (filter snd (zip arr msk))))"

subsection \<open>Spectral analyser: \<open>compute_psd\<close>\<close>

text \<open>
  \<^verbatim>\<open>
  def compute_psd(signal_data, sample_rate):
      fft_vals = np.fft.fft(signal_data)
      freqs = np.fft.fftfreq(len(signal_data), 1 / sample_rate)
      half_index = len(freqs) // 2
      freqs_pos = freqs[:half_index]
      psd = np.abs(fft_vals[:half_index]) ** 2
      return freqs_pos, psd
  \<close>
  \<^verbatim>\<open>1 / sample_rate\<close> raises ZeroDivisionError for a zero sample rate.
\<close>

definition compute_psd :: "real list \<Rightarrow> real \<Rightarrow> py_error + (real list \<times> real list)" where
  "compute_psd signal_data sample_rate =
     (case np_fft signal_data of
        Inl e \<Rightarrow> Inl e
      | Inr fft_vals \<Rightarrow>
          if sample_rate = 0 then Inl ZeroDivisionError
          else (case np_fftfreq (length signal_data) (1 / sample_rate) of
                  Inl e \<Rightarrow> Inl e
                | Inr freqs \<Rightarrow>
                    let half_index = length freqs div 2;
                        freqs_pos = take half_index freqs;
                        psd = map (\<lambda>c. (cmod c)\<^sup>2) (take half_index fft_vals)
                    in Inr (freqs_pos, psd)))"

subsection \<open>Band power aggregator: \<open>compute_band_powers\<close>\<close>

text \<open>
  \<^verbatim>\<open>
  def compute_band_powers(freqs, psd, bands):
      band_powers = []
      for (low_edge, high_edge) in bands:
          band_indices = (freqs >= low_edge) & (freqs < high_edge)
          band_power = np.sum(psd[band_indices])
          band_powers.append(band_power)
      return band_powers
  \<close>
  The loop is a recursion over the remaining bands that carries \<open>band_powers\<close>.
\<close>

fun band_loop ::
  "real list \<Rightarrow> real list \<Rightarrow> (real \<times> real) list \<Rightarrow> real list \<Rightarrow> py_error + real list" where
  "band_loop freqs psd [] band_powers = Inr band_powers"
| "band_loop freqs psd ((low_edge, high_edge) # bands) band_powers =
     (let band_indices = map (\<lambda>f. f \<ge> low_edge \<and> f < high_edge) freqs
      in case np_bool_index psd band_indices of
           Inl e \<Rightarrow> Inl e
         | Inr selected \<Rightarrow>
             band_loop freqs psd bands (band_powers @ [sum_list selected]))"

definition compute_band_powers ::
  "real list \<Rightarrow> real list \<Rightarrow> (real \<times> real) list \<Rightarrow> py_error + real list" where
  "compute_band_powers freqs psd bands = band_loop freqs psd bands []"

subsection \<open>The scipy.signal operations used by the two filter stages\<close>

text \<open>
  Both stages delegate to scipy.signal, which is a library and not part of the repository.
  The definitions of this subsection follow the published implementation of the library
  functions that the stages call; the Python shown is that of the library.
\<close>

text \<open>
  \<^verbatim>\<open>signal.iirnotch(w0, Q)\<close> (with its default \<^verbatim>\<open>fs=2.0\<close>):
  \<^verbatim>\<open>
    w0 = float(w0); Q = float(Q)
    w0 = 2*w0/fs
    if w0 > 1.0 or w0 < 0.0:
        raise ValueError("w0 should be such that 0 < w0 < 1")
    bw = w0/Q
    bw = bw*np.pi
    w0 = w0*np.pi
    gb = 1/np.sqrt(2)
    beta = (np.sqrt(1.0-gb**2.0)/gb)*np.tan(bw/2.0)
    gain = 1.0/(1.0+beta)
    b = gain*np.array([1.0, -2.0*np.cos(w0), 1.0])
    a = np.array([1.0, -2.0*gain*np.cos(w0), (2.0*gain-1.0)])
    return b, a
  \<close>
  \<^verbatim>\<open>w0/Q\<close> divides two Python floats and raises ZeroDivisionError for \<open>Q = 0\<close>. The
  later divisions are numpy float64 operations, which never raise: where \<open>1 + beta = 0\<close>
  or \<open>bw/2\<close> is a pole of the tangent, float64 yields infinite or huge coefficients and
  the real-valued coefficients below are not meaningful. The control flow, the lengths
  of \<open>b\<close> and \<open>a\<close> and \<open>a[0] = 1\<close> are the same in both.
\<close>

definition iirnotch :: "real \<Rightarrow> real \<Rightarrow> py_error + (real list \<times> real list)" where
  "iirnotch w0 Q =
     (let fs = 2;
          w0 = 2 * w0 / fs
      in if w0 > 1 \<or> w0 < 0 then Inl ValueError
         else if Q = 0 then Inl ZeroDivisionError
         else let bw = w0 / Q;
                  bw = bw * pi;
                  w0 = w0 * pi;
                  gb = 1 / sqrt 2;
                  beta = (sqrt (1 - gb\<^sup>2) / gb) * tan (bw / 2);
                  gain = 1 / (1 + beta);
                  b = map (\<lambda>c. gain * c) [1, - 2 * cos w0, 1];
                  a = [1, - 2 * gain * cos w0, 2 * gain - 1]
              in Inr (b, a))"

text \<open>
  \<^verbatim>\<open>odd_ext(x, n)\<close>, the padding that \<^verbatim>\<open>filtfilt\<close> uses by default (\<^verbatim>\<open>padtype='odd'\<close>):
  \<^verbatim>\<open>
    if n < 1: return x
    if n > x.shape[axis] - 1: raise ValueError(...)
    left_end = x[0:1];  left_ext = x[n:0:-1]
    right_end = x[-1:]; right_ext = x[-2:-(n + 2):-1]
    ext = np.concatenate((2 * left_end - left_ext, x, 2 * right_end - right_ext))
  \<close>
\<close>

definition odd_ext :: "real list \<Rightarrow> nat \<Rightarrow> py_error + real list" where
  "odd_ext x n =
     (if n < 1 then Inr x
      else if int n > int (length x) - 1 then Inl ValueError
      else let left_end = x ! 0;
               left_ext = map (\<lambda>i. x ! (n - i)) [0..<n];
               right_end = x ! (length x - 1);
               right_ext = map (\<lambda>i. x ! (length x - 2 - i)) [0..<n]
           in Inr (map (\<lambda>v. 2 * left_end - v) left_ext @ x @
                   map (\<lambda>v. 2 * right_end - v) right_ext))"

text \<open>
  \<^verbatim>\<open>signal.lfilter(b, a, x, zi=zi)\<close> is the direct form II transposed recurrence, with \<open>b\<close> and
  \<open>a\<close> padded with zeros to the common length \<open>n\<close> and divided by \<open>a[0]\<close>, and a state
  \<open>z\<close> of \<open>n - 1\<close> delay values:
  \<^verbatim>\<open>
    y[m]      = b[0]*x[m] + z[0,m-1]
    z[i,m]    = b[i+1]*x[m] + z[i+1,m-1] - a[i+1]*y[m]      (i < n-2)
    z[n-2,m]  = b[n-1]*x[m] - a[n-1]*y[m]
  \<close>
  It returns the output and the final state, and raises ValueError when \<open>a[0] = 0\<close> or when
  \<open>zi\<close> does not have \<open>n - 1\<close> entries. Neither filter designer produces an empty
  coefficient array; the model rejects one.
\<close>

fun lfilter_run :: "real list \<Rightarrow> real list \<Rightarrow> real list \<Rightarrow> real list \<Rightarrow> real list \<times> real list" where
  "lfilter_run b a z [] = ([], z)"
| "lfilter_run b a z (x # xs) =
     (let y = b ! 0 * x + (if z = [] then 0 else z ! 0);
          z' = map (\<lambda>i. b ! (i + 1) * x + (if i + 1 < length z then z ! (i + 1) else 0)
                          - a ! (i + 1) * y) [0..<length z];
          (ys, zf) = lfilter_run b a z' xs
      in (y # ys, zf))"

definition lfilter ::
  "real list \<Rightarrow> real list \<Rightarrow> real list \<Rightarrow> real list \<Rightarrow> py_error + (real list \<times> real list)" where
  "lfilter b a x zi =
     (if b = [] \<or> a = [] then Inl ValueError
      else if a ! 0 = 0 then Inl ValueError
      else let n = max (length a) (length b);
               bn = map (\<lambda>c. c / a ! 0) (b @ replicate (n - length b) 0);
               an = map (\<lambda>c. c / a ! 0) (a @ replicate (n - length a) 0)
           in if length zi \<noteq> n - 1 then Inl ValueError
              else Inr (lfilter_run bn an zi x))"

text \<open>
  \<^verbatim>\<open>signal.filtfilt(b, a, x)\<close> with its defaults (\<^verbatim>\<open>method='pad'\<close>, \<^verbatim>\<open>padtype='odd'\<close>,
  \<^verbatim>\<open>padlen=None\<close>):
  \<^verbatim>\<open>
    ntaps = max(len(a), len(b))
    edge = ntaps * 3
    if x.shape[axis] <= edge:
        raise ValueError("The length of the input vector x must be greater than padlen ...")
    ext = odd_ext(x, edge) if edge > 0 else x
    zi = lfilter_zi(b, a)
    x0 = ext[0]
    (y, zf) = lfilter(b, a, ext, zi=zi * x0)
    y0 = y[-1]
    (y, zf) = lfilter(b, a, y[::-1], zi=zi * y0)
    y = y[::-1]
    if edge > 0: y = y[edge:-edge]
    return y
  \<close>
  \<^verbatim>\<open>lfilter_zi(b, a)\<close> solves a linear system for the steady state of the step response;
  it is a parameter of the model. The two passes over the padded sequence are
  \<open>forward_backward\<close>.
\<close>

definition forward_backward ::
  "(real list \<Rightarrow> real list \<Rightarrow> py_error + real list) \<Rightarrow> real list \<Rightarrow> real list \<Rightarrow> real list
     \<Rightarrow> py_error + real list" where
  "forward_backward lfilter_zi b a ext =
     (case lfilter_zi b a of
        Inl e \<Rightarrow> Inl e
      | Inr zi \<Rightarrow>
          let x0 = ext ! 0 in
          (case lfilter b a ext (map (\<lambda>z. z * x0) zi) of
             Inl e \<Rightarrow> Inl e
           | Inr (y, zf) \<Rightarrow>
               let y0 = y ! (length y - 1) in
               (case lfilter b a (rev y) (map (\<lambda>z. z * y0) zi) of
                  Inl e \<Rightarrow> Inl e
                | Inr (y', zf') \<Rightarrow> Inr (rev y'))))"

definition filtfilt ::
  "(real list \<Rightarrow> real list \<Rightarrow> py_error + real list) \<Rightarrow> real list \<Rightarrow> real list \<Rightarrow> real list
     \<Rightarrow> py_error + real list" where
  "filtfilt lfilter_zi b a x =
     (let ntaps = max (length a) (length b);
          edge = ntaps * 3
      in if length x \<le> edge then Inl ValueError
         else (case (if edge > 0 then odd_ext x edge else Inr x) of
                 Inl e \<Rightarrow> Inl e
               | Inr ext \<Rightarrow>
                   (case forward_backward lfilter_zi b a ext of
                      Inl e \<Rightarrow> Inl e
                    | Inr y \<Rightarrow>
                        Inr (if edge > 0 then take (length y - edge - edge) (drop edge y)
                             else y))))"

subsection \<open>The two filter stages: \<open>apply_notch_filter\<close> and \<open>apply_lowpass_filter\<close>\<close>

text \<open>
  \<^verbatim>\<open>
  def apply_notch_filter(signal_data, freq_to_remove, sample_rate, q_factor=30.0):
      nyquist_freq = sample_rate / 2.0
      notch_normalized_freq = freq_to_remove / nyquist_freq
      notch_num, notch_den = signal.iirnotch(notch_normalized_freq, q_factor)
      filtered = signal.filtfilt(notch_num, notch_den, signal_data)
      return filtered
  \<close>
  \<open>notch_design\<close> is the first three lines (the design of the coefficients).
\<close>

definition notch_design :: "real \<Rightarrow> real \<Rightarrow> real \<Rightarrow> py_error + (real list \<times> real list)" where
  "notch_design freq_to_remove sample_rate q_factor =
     (let nyquist_freq = sample_rate / 2
      in if nyquist_freq = 0 then Inl ZeroDivisionError
         else let notch_normalized_freq = freq_to_remove / nyquist_freq
              in iirnotch notch_normalized_freq q_factor)"

definition apply_notch_filter ::
  "(real list \<Rightarrow> real list \<Rightarrow> py_error + real list) \<Rightarrow> real list \<Rightarrow> real \<Rightarrow> real \<Rightarrow> real
     \<Rightarrow> py_error + real list" where
  "apply_notch_filter lfilter_zi signal_data freq_to_remove sample_rate q_factor =
     (case notch_design freq_to_remove sample_rate q_factor of
        Inl e \<Rightarrow> Inl e
      | Inr (notch_num, notch_den) \<Rightarrow> filtfilt lfilter_zi notch_num notch_den signal_data)"

text \<open>
  \<^verbatim>\<open>
  def apply_lowpass_filter(signal_data, cutoff_freq, sample_rate, order=4):
      nyquist_freq = sample_rate / 2.0
      normalized_cutoff = cutoff_freq / nyquist_freq
      lp_num, lp_den = signal.butter(order, normalized_cutoff, btype='low')
      filtered = signal.filtfilt(lp_num, lp_den, signal_data)
      return filtered
  \<close>
  The Butterworth designer \<^verbatim>\<open>signal.butter\<close> is a parameter of the model.
\<close>

definition apply_lowpass_filter ::
  "(int \<Rightarrow> real \<Rightarrow> py_error + (real list \<times> real list)) \<Rightarrow>
   (real list \<Rightarrow> real list \<Rightarrow> py_error + real list) \<Rightarrow> real list \<Rightarrow> real \<Rightarrow> real \<Rightarrow> int
     \<Rightarrow> py_error + real list" where
  "apply_lowpass_filter butter lfilter_zi signal_data cutoff_freq sample_rate order =
     (let nyquist_freq = sample_rate / 2
      in if nyquist_freq = 0 then Inl ZeroDivisionError
         else let normalized_cutoff = cutoff_freq / nyquist_freq
              in (case butter order normalized_cutoff of
                    Inl e \<Rightarrow> Inl e
                  | Inr (lp_num, lp_den) \<Rightarrow> filtfilt lfilter_zi lp_num lp_den signal_data))"

section \<open>Properties of the spectral analyser\<close>


lemma np_fftfreq_ok:
  assumes "0 < n" and "d \<noteq> 0"
  shows "\<exists>fr. np_fftfreq n d = Inr fr \<and> length fr = n \<and>
              (\<forall>k < n div 2. fr ! k = real k * (1 / (real n * d)))"
proof -
  let ?N = "nat ((int n - 1) div 2 + 1)"
  let ?res = "map int [0..<?N] @ [- (int n div 2)..-1]"
  let ?fr = "map (\<lambda>r. real_of_int r * (1 / (real n * d))) ?res"
  have eq: "np_fftfreq n d = Inr ?fr"
    using assms by (simp add: np_fftfreq_def Let_def)
  have N: "?N + n div 2 = n" "n div 2 \<le> ?N"
    using assms(1) by linarith+
  have len: "length ?fr = n"
    using N(1) by simp
  have nth: "?fr ! k = real k * (1 / (real n * d))" if "k < n div 2" for k
  proof -
    have k: "k < ?N" using that N(2) by linarith
    then have "?res ! k = int k"
      by (simp add: nth_append)
    moreover have "k < length ?res" using k by simp
    then have "?fr ! k = real_of_int (?res ! k) * (1 / (real n * d))"
      by (rule nth_map)
    ultimately show ?thesis by (simp only: of_int_of_nat_eq)
  qed
  show ?thesis using eq len nth by blast
qed

lemma compute_psd_ok:
  assumes "signal_data \<noteq> []" and "sample_rate \<noteq> 0"
  shows "\<exists>freqs psd. compute_psd signal_data sample_rate = Inr (freqs, psd) \<and>
           length freqs = length signal_data div 2 \<and>
           length psd = length signal_data div 2 \<and>
           (\<forall>k < length signal_data div 2.
              freqs ! k = real k * sample_rate / real (length signal_data) \<and>
              psd ! k = (cmod (dft_coeff signal_data k))\<^sup>2)"
proof -
  let ?n = "length signal_data"
  have n: "0 < ?n" using assms(1) by simp
  have d: "1 / sample_rate \<noteq> 0" using assms(2) by simp
  obtain fr where fr: "np_fftfreq ?n (1 / sample_rate) = Inr fr" "length fr = ?n"
    "\<And>k. k < ?n div 2 \<Longrightarrow> fr ! k = real k * (1 / (real ?n * (1 / sample_rate)))"
    using np_fftfreq_ok [OF n d] by blast
  let ?freqs = "take (?n div 2) fr"
  let ?psd = "map (\<lambda>c. (cmod c)\<^sup>2) (take (?n div 2) (map (dft_coeff signal_data) [0..<?n]))"
  have eq: "compute_psd signal_data sample_rate = Inr (?freqs, ?psd)"
    using assms fr(1,2) by (simp add: compute_psd_def np_fft_def Let_def)
  have l1: "length ?freqs = ?n div 2" using fr(2) by simp
  have l2: "length ?psd = ?n div 2" by simp
  have v: "?freqs ! k = real k * sample_rate / real ?n \<and>
           ?psd ! k = (cmod (dft_coeff signal_data k))\<^sup>2"
    if "k < ?n div 2" for k
  proof -
    have "?freqs ! k = fr ! k" using that by simp
    then have a: "?freqs ! k = real k * sample_rate / real ?n"
      using fr(3) [OF that] by simp
    have "k < ?n" using that by linarith
    then have b: "?psd ! k = (cmod (dft_coeff signal_data k))\<^sup>2"
      using that by (simp add: take_map)
    show ?thesis using a b by blast
  qed
  show ?thesis using eq l1 l2 v by blast
qed

lemma compute_psd_empty: "compute_psd [] sample_rate = Inl ValueError"
  by (simp add: compute_psd_def np_fft_def)

lemma compute_psd_zero_rate:
  "signal_data \<noteq> [] \<Longrightarrow> compute_psd signal_data 0 = Inl ZeroDivisionError"
  by (simp add: compute_psd_def np_fft_def)

lemma compute_psd_Inr_valid:
  assumes "compute_psd signal_data sample_rate = Inr r"
  shows "signal_data \<noteq> [] \<and> sample_rate \<noteq> 0"
proof (rule ccontr)
  assume "\<not> (signal_data \<noteq> [] \<and> sample_rate \<noteq> 0)"
  then consider "signal_data = []" | "signal_data \<noteq> []" "sample_rate = 0" by blast
  then show False
  proof cases
    case 1
    then show False using assms compute_psd_empty by simp
  next
    case 2
    then show False using assms compute_psd_zero_rate by simp
  qed
qed





text \<open>
  Claim C7, as the code has it. \<open>compute_psd\<close> has no check of its own on the length: it
  fails exactly when the input is empty (the ValueError of the FFT) or the sample rate
  is zero; a single sample is accepted and gives an empty estimate.
\<close>

theorem compute_psd_single_sample_counterexample:
  "compute_psd [1] 200 = Inr ([], [])"
  by (simp add: compute_psd_def np_fft_def np_fftfreq_def)

theorem compute_psd_failure:
  "((\<exists>e. compute_psd signal_data sample_rate = Inl e) \<longleftrightarrow>
      (signal_data = [] \<or> sample_rate = 0)) \<and>
   compute_psd [] sample_rate = Inl ValueError \<and>
   (length signal_data = 1 \<and> sample_rate \<noteq> 0 \<longrightarrow>
      compute_psd signal_data sample_rate = Inr ([], []))"
proof -
  have a: "(\<exists>e. compute_psd signal_data sample_rate = Inl e) \<longleftrightarrow>
      (signal_data = [] \<or> sample_rate = 0)"
  proof
    assume e: "\<exists>e. compute_psd signal_data sample_rate = Inl e"
    show "signal_data = [] \<or> sample_rate = 0"
    proof (rule ccontr)
      assume "\<not> (signal_data = [] \<or> sample_rate = 0)"
      then have "signal_data \<noteq> []" and "sample_rate \<noteq> 0" by simp_all
      then obtain freqs psd where "compute_psd signal_data sample_rate = Inr (freqs, psd)"
        using compute_psd_ok by blast
      then show False using e by simp
    qed
  next
    assume "signal_data = [] \<or> sample_rate = 0"
    then show "\<exists>e. compute_psd signal_data sample_rate = Inl e"
      using compute_psd_empty compute_psd_zero_rate by (cases "signal_data = []") auto
  qed
  have c: "compute_psd signal_data sample_rate = Inr ([], [])"
    if one: "length signal_data = 1" and rate: "sample_rate \<noteq> 0"
  proof -
    have ne: "signal_data \<noteq> []" using one by auto
    obtain freqs psd where "compute_psd signal_data sample_rate = Inr (freqs, psd)"
      "length freqs = length signal_data div 2" "length psd = length signal_data div 2"
      using compute_psd_ok [OF ne rate] by blast
    then show ?thesis using one by simp
  qed
  show ?thesis using a c compute_psd_empty by blast
qed

theorem compute_psd_failure_witness:
  "length [7 :: real] = 1 \<and> (50 :: real) \<noteq> 0 \<and> compute_psd [7] 50 = Inr ([], []) \<and>
   \<not> (\<exists>e. compute_psd [7] 50 = Inl e)"
  using compute_psd_failure [of "[7]" 50] by simp

section \<open>Properties of the band power aggregator\<close>

lemma selected_sum:
  "length freqs = length psd \<Longrightarrow>
   sum_list (map fst (filter snd (zip psd (map P freqs)))) =
   (\<Sum>i<length freqs. if P (freqs ! i) then psd ! i else 0)"
proof (induction freqs psd rule: list_induct2)
  case Nil
  then show ?case by simp
next
  case (Cons f fs p ps)
  show ?case
    by (simp add: Cons.IH sum.lessThan_Suc_shift del: sum.lessThan_Suc cong: if_cong)
qed

lemma band_loop_sums:
  "length freqs = length psd \<Longrightarrow>
   band_loop freqs psd bands acc =
   Inr (acc @ map (\<lambda>(lo, hi). \<Sum>i<length freqs.
                      if lo \<le> freqs ! i \<and> freqs ! i < hi then psd ! i else 0) bands)"
proof (induction bands arbitrary: acc)
  case Nil
  then show ?case by simp
next
  case (Cons band bands)
  obtain lo hi where band: "band = (lo, hi)" by (cases band)
  show ?case
    using Cons.prems
    by (simp add: band np_bool_index_def Cons.IH selected_sum)
qed

lemma compute_band_powers_eq:
  assumes "length freqs = length psd"
  shows "compute_band_powers freqs psd bands =
         Inr (map (\<lambda>(lo, hi). \<Sum>i<length freqs.
                     if lo \<le> freqs ! i \<and> freqs ! i < hi then psd ! i else 0) bands)"
  using band_loop_sums [OF assms, of bands "[]"] by (simp add: compute_band_powers_def)

lemma if_sum_as_set:
  "(\<Sum>i<(n::nat). if P i then (g i :: real) else 0) = (\<Sum>i | i < n \<and> P i. g i)"
proof -
  have fin: "finite {..<n}" by simp
  have e: "{i. i < n \<and> P i} = {i \<in> {..<n}. P i}" by auto
  show ?thesis unfolding e by (rule sum.inter_filter [OF fin, symmetric])
qed

text \<open>
  Claim C2. For a spectral estimate (as many frequencies as powers) and any list of
  bands, \<open>compute_band_powers\<close> returns one value per band, in the order of the band
  list; the value for the band \<open>(low, high)\<close> is the sum of the powers of exactly the bins
  whose frequency \<open>f\<close> satisfies \<open>low \<le> f < high\<close>; a band with no such bin gets the power
  0, not an error; and an empty band list gives an empty report.
\<close>

theorem compute_band_powers_report:
  assumes "length freqs = length psd"
  shows "\<exists>report.
           compute_band_powers freqs psd bands = Inr report \<and>
           length report = length bands \<and>
           (\<forall>j < length bands.
              report ! j =
                (\<Sum>i | i < length freqs \<and> fst (bands ! j) \<le> freqs ! i \<and>
                        freqs ! i < snd (bands ! j). psd ! i)) \<and>
           (\<forall>j < length bands.
              (\<forall>f \<in> set freqs. \<not> (fst (bands ! j) \<le> f \<and> f < snd (bands ! j))) \<longrightarrow>
              report ! j = 0) \<and>
           (bands = [] \<longrightarrow> report = [])"
proof -
  let ?g = "\<lambda>(lo, hi). \<Sum>i<length freqs.
              if lo \<le> freqs ! i \<and> freqs ! i < hi then psd ! i else 0"
  let ?report = "map ?g bands"
  have eq: "compute_band_powers freqs psd bands = Inr ?report"
    using compute_band_powers_eq [OF assms] .
  have len: "length ?report = length bands" by simp
  have val: "?report ! j =
      (\<Sum>i | i < length freqs \<and> fst (bands ! j) \<le> freqs ! i \<and> freqs ! i < snd (bands ! j).
         psd ! i)" if j: "j < length bands" for j
  proof -
    have "?report ! j = ?g (bands ! j)" using j by simp
    also have "\<dots> = (\<Sum>i<length freqs.
        if fst (bands ! j) \<le> freqs ! i \<and> freqs ! i < snd (bands ! j) then psd ! i else 0)"
      by (simp add: case_prod_beta)
    also have "\<dots> = (\<Sum>i | i < length freqs \<and>
        (fst (bands ! j) \<le> freqs ! i \<and> freqs ! i < snd (bands ! j)). psd ! i)"
      by (rule if_sum_as_set)
    finally show ?thesis .
  qed
  have none: "?report ! j = 0"
    if j: "j < length bands"
      and out: "\<forall>f \<in> set freqs. \<not> (fst (bands ! j) \<le> f \<and> f < snd (bands ! j))" for j
  proof -
    have "{i. i < length freqs \<and> fst (bands ! j) \<le> freqs ! i \<and> freqs ! i < snd (bands ! j)} = {}"
      using out nth_mem by blast
    then show ?thesis by (simp only: val [OF j] sum.empty)
  qed
  have emp: "bands = [] \<longrightarrow> ?report = []" by simp
  show ?thesis using eq len val none emp by blast
qed

theorem compute_band_powers_report_witness:
  "length [0, 50 :: real] = length [100, 8 :: real] \<and>
   compute_band_powers [0, 50] [100, 8] [(50, 100), (0, 50), (100, 200)] = Inr [8, 100, 0]"
proof -
  have h: "length [0, 50 :: real] = length [100, 8 :: real]" by simp
  obtain report where
    "compute_band_powers [0, 50] [100, 8] [(50, 100), (0, 50), (100, 200)] = Inr report"
    using compute_band_powers_report [OF h] by blast
  then show ?thesis
    by (simp add: compute_band_powers_def np_bool_index_def)
qed



text \<open>
  Claim C8, as the code has it. The aggregator has no validation of a band: a band with
  \<open>low \<ge> high\<close> selects no bin and is mapped to the power 0, and the call succeeds.
\<close>

theorem compute_band_powers_inverted_band_counterexample:
  "compute_band_powers [0, 5] [1, 2] [(10, 3)] = Inr [0]"
  by (simp add: compute_band_powers_def np_bool_index_def)

theorem compute_band_powers_inverted_band:
  assumes "length freqs = length psd" and "j < length bands"
    and "snd (bands ! j) \<le> fst (bands ! j)"
  shows "\<exists>report. compute_band_powers freqs psd bands = Inr report \<and>
                  length report = length bands \<and> report ! j = 0"
proof -
  let ?g = "\<lambda>(lo, hi). \<Sum>i<length freqs.
              if lo \<le> freqs ! i \<and> freqs ! i < hi then psd ! i else 0"
  have eq: "compute_band_powers freqs psd bands = Inr (map ?g bands)"
    using compute_band_powers_eq [OF assms(1)] .
  have out: "(fst (bands ! j) \<le> freqs ! i \<and> freqs ! i < snd (bands ! j)) = False" for i
    using assms(3) by auto
  have "?g (bands ! j) = 0"
    by (simp add: case_prod_beta out)
  then have "map ?g bands ! j = 0" using assms(2) by simp
  then show ?thesis using eq by simp
qed

theorem compute_band_powers_inverted_band_witness:
  "length [0, 5 :: real] = length [1, 2 :: real] \<and>
   (1 :: nat) < length [(0, 10), (10, 3 :: real)] \<and>
   snd ([(0, 10), (10, 3 :: real)] ! 1) \<le> fst ([(0, 10), (10, 3 :: real)] ! 1) \<and>
   (\<exists>report. compute_band_powers [0, 5] [1, 2] [(0, 10), (10, 3)] = Inr report \<and>
      length report = 2 \<and> report ! 1 = 0)"
  using compute_band_powers_inverted_band [of "[0, 5]" "[1, 2]" 1 "[(0, 10), (10, 3)]"]
  by (simp add: numeral_2_eq_2)

text \<open>
  Claim C10. Every power returned by \<open>compute_psd\<close> is non-negative, and so is every
  entry of the report that \<open>compute_band_powers\<close> computes from that estimate, for any
  band list; the aggregation of an estimate returned by \<open>compute_psd\<close> never fails.
\<close>

theorem powers_nonnegative:
  assumes "compute_psd signal_data sample_rate = Inr (freqs, psd)"
  shows "(\<forall>p \<in> set psd. 0 \<le> p) \<and>
         (\<exists>report. compute_band_powers freqs psd bands = Inr report \<and>
                    length report = length bands \<and> (\<forall>v \<in> set report. 0 \<le> v))"
proof -
  have valid: "signal_data \<noteq> []" "sample_rate \<noteq> 0"
    using compute_psd_Inr_valid [OF assms] by simp_all
  obtain freqs' psd' where r: "compute_psd signal_data sample_rate = Inr (freqs', psd')"
    and lf: "length freqs' = length signal_data div 2"
    and lp: "length psd' = length signal_data div 2"
    and v: "\<forall>k < length signal_data div 2.
              freqs' ! k = real k * sample_rate / real (length signal_data) \<and>
              psd' ! k = (cmod (dft_coeff signal_data k))\<^sup>2"
    using compute_psd_ok [OF valid] by blast
  have same: "freqs' = freqs" "psd' = psd" using r assms by simp_all
  have len: "length freqs = length psd" using lf lp same by simp
  have nonneg: "0 \<le> psd ! k" if "k < length psd" for k
    using v that lp same by simp
  then have a: "\<forall>p \<in> set psd. 0 \<le> p"
    by (auto simp: in_set_conv_nth)
  let ?g = "\<lambda>(lo, hi). \<Sum>i<length freqs.
              if lo \<le> freqs ! i \<and> freqs ! i < hi then psd ! i else 0"
  have eq: "compute_band_powers freqs psd bands = Inr (map ?g bands)"
    using compute_band_powers_eq [OF len] .
  have "0 \<le> ?g band" for band
  proof -
    have "0 \<le> (\<Sum>i<length freqs.
        if fst band \<le> freqs ! i \<and> freqs ! i < snd band then psd ! i else 0)"
      by (rule sum_nonneg) (use nonneg len in auto)
    then show ?thesis by (simp add: case_prod_beta)
  qed
  then have b: "\<forall>v \<in> set (map ?g bands). 0 \<le> v" by auto
  show ?thesis using a eq b by simp
qed

theorem powers_nonnegative_witness:
  "compute_psd [1, 2] 200 = Inr ([0], [9]) \<and>
   (\<exists>report. compute_band_powers [0] [9] [(0, 10), (10, 20)] = Inr report \<and>
      length report = 2 \<and> 0 \<le> report ! 0 \<and> 0 \<le> report ! 1)"
proof -
  have h: "compute_psd [1, 2] 200 = Inr ([0], [9])"
    by (simp add: compute_psd_def np_fft_def np_fftfreq_def dft_coeff_def upto.simps)
  obtain report where r: "compute_band_powers [0] [9] [(0, 10), (10, 20)] = Inr report"
    and l: "length report = length ([(0, 10), (10, 20)] :: (real \<times> real) list)"
    and v: "\<forall>v \<in> set report. 0 \<le> v"
    using powers_nonnegative [OF h, of "[(0, 10), (10, 20)]"] by blast
  have "report ! 0 \<in> set report" and "report ! 1 \<in> set report"
    using l by simp_all
  then show ?thesis using h r l v by simp
qed

section \<open>Properties of the filter stages\<close>

subsection \<open>Notch design\<close>

lemma iirnotch_cases:
  "iirnotch w0 Q =
     (if w0 > 1 \<or> w0 < 0 then Inl ValueError
      else if Q = 0 then Inl ZeroDivisionError
      else Inr (map (\<lambda>c. 1 / (1 + sqrt (1 - (1 / sqrt 2)\<^sup>2) / (1 / sqrt 2) * tan (w0 / Q * pi / 2)) * c)
                  [1, - 2 * cos (w0 * pi), 1],
                [1, - 2 * (1 / (1 + sqrt (1 - (1 / sqrt 2)\<^sup>2) / (1 / sqrt 2) * tan (w0 / Q * pi / 2)))
                      * cos (w0 * pi),
                 2 * (1 / (1 + sqrt (1 - (1 / sqrt 2)\<^sup>2) / (1 / sqrt 2) * tan (w0 / Q * pi / 2))) - 1]))"
  by (simp add: iirnotch_def Let_def)



lemma iirnotch_Inr:
  assumes "0 \<le> w0" and "w0 \<le> 1" and "Q \<noteq> 0"
  shows "\<exists>b a. iirnotch w0 Q = Inr (b, a) \<and> length b = 3 \<and> length a = 3 \<and> a ! 0 = 1"
  using assms unfolding iirnotch_cases by simp

lemma notch_design_eq:
  "0 < sample_rate \<Longrightarrow>
   notch_design freq_to_remove sample_rate q_factor =
   iirnotch (freq_to_remove / (sample_rate / 2)) q_factor"
  by (simp add: notch_design_def Let_def)


subsection \<open>Padding and the two passes\<close>

lemma length_lfilter_run: "length (fst (lfilter_run b a z xs)) = length xs"
  by (induction xs arbitrary: z) (simp_all add: Let_def case_prod_beta)

lemma lfilter_length:
  assumes "lfilter b a x zi = Inr (y, zf)"
  shows "length y = length x"
proof -
  from assms obtain bn an where "lfilter_run bn an zi x = (y, zf)"
    by (auto simp: lfilter_def Let_def split: if_splits)
  then show ?thesis using length_lfilter_run [of bn an zi x] by simp
qed

lemma lfilter_ok:
  assumes "b \<noteq> []" and "a \<noteq> []" and "a ! 0 \<noteq> 0"
    and "length zi = max (length a) (length b) - 1"
  shows "\<exists>y zf. lfilter b a x zi = Inr (y, zf)"
  using assms by (simp add: lfilter_def Let_def)

lemma odd_ext_ok:
  assumes "0 < n" and "n < length x"
  shows "\<exists>ext. odd_ext x n = Inr ext \<and> length ext = length x + 2 * n \<and>
           (\<forall>i < n. ext ! i = 2 * x ! 0 - x ! (n - i)) \<and>
           (\<forall>i < length x. ext ! (n + i) = x ! i) \<and>
           (\<forall>i < n. ext ! (n + length x + i) = 2 * x ! (length x - 1) - x ! (length x - 2 - i))"
proof -
  let ?l = "map (\<lambda>v. 2 * x ! 0 - v) (map (\<lambda>i. x ! (n - i)) [0..<n])"
  let ?r = "map (\<lambda>v. 2 * x ! (length x - 1) - v) (map (\<lambda>i. x ! (length x - 2 - i)) [0..<n])"
  let ?ext = "?l @ x @ ?r"
  have eq: "odd_ext x n = Inr ?ext"
    using assms by (simp add: odd_ext_def Let_def)
  have ll: "length ?l = n" and lr: "length ?r = n" by simp_all
  have len: "length ?ext = length x + 2 * n" by simp
  have left: "?ext ! i = 2 * x ! 0 - x ! (n - i)" if "i < n" for i
    using that by (simp add: nth_append)
  have mid: "?ext ! (n + i) = x ! i" if "i < length x" for i
    using that ll by (simp add: nth_append)
  have right: "?ext ! (n + length x + i) = 2 * x ! (length x - 1) - x ! (length x - 2 - i)"
    if "i < n" for i
  proof -
    have "?ext ! (n + length x + i) = (x @ ?r) ! (length x + i)"
      using ll by (simp add: nth_append)
    also have "\<dots> = ?r ! i" by (simp add: nth_append)
    also have "\<dots> = 2 * x ! (length x - 1) - x ! (length x - 2 - i)"
      using that by simp
    finally show ?thesis .
  qed
  show ?thesis using eq len left mid right by blast
qed

lemma forward_backward_length:
  assumes "forward_backward lfilter_zi b a ext = Inr y"
  shows "length y = length ext"
proof -
  from assms obtain zi y1 zf1 y2 zf2 where
    f: "lfilter b a ext (map (\<lambda>z. z * ext ! 0) zi) = Inr (y1, zf1)" and
    g: "lfilter b a (rev y1) (map (\<lambda>z. z * y1 ! (length y1 - 1)) zi) = Inr (y2, zf2)" and
    y: "y = rev y2"
    by (auto simp: forward_backward_def Let_def split: sum.splits prod.splits)
  have "length y1 = length ext" using lfilter_length [OF f] .
  moreover have "length y2 = length (rev y1)" using lfilter_length [OF g] .
  ultimately show ?thesis using y by simp
qed

lemma forward_backward_ok:
  assumes "b \<noteq> []" and "a \<noteq> []" and "a ! 0 \<noteq> 0"
    and "lfilter_zi b a = Inr zi" and "length zi = max (length a) (length b) - 1"
  shows "\<exists>y. forward_backward lfilter_zi b a ext = Inr y"
proof -
  obtain y1 zf1 where f: "lfilter b a ext (map (\<lambda>z. z * ext ! 0) zi) = Inr (y1, zf1)"
    using lfilter_ok [OF assms(1-3), of "map (\<lambda>z. z * ext ! 0) zi" ext] assms(5) by auto
  obtain y2 zf2 where
    g: "lfilter b a (rev y1) (map (\<lambda>z. z * y1 ! (length y1 - 1)) zi) = Inr (y2, zf2)"
    using lfilter_ok [OF assms(1-3), of "map (\<lambda>z. z * y1 ! (length y1 - 1)) zi" "rev y1"]
      assms(5) by auto
  show ?thesis
    using assms(4) f g by (simp add: forward_backward_def Let_def)
qed

lemma filtfilt_short:
  "length x \<le> 3 * max (length b) (length a) \<Longrightarrow> filtfilt lfilter_zi b a x = Inl ValueError"
  by (simp add: filtfilt_def Let_def max.commute mult.commute)

lemma filtfilt_Inr:
  assumes "filtfilt lfilter_zi b a x = Inr y" and "edge = 3 * max (length b) (length a)"
  shows "edge < length x \<and>
         (\<exists>ext full.
            (if 0 < edge then odd_ext x edge else Inr x) = Inr ext \<and>
            forward_backward lfilter_zi b a ext = Inr full \<and>
            y = (if 0 < edge then take (length full - edge - edge) (drop edge full) else full))"
proof -
  have e: "max (length a) (length b) * 3 = edge"
    using assms(2) by (simp add: max.commute mult.commute)
  show ?thesis
    using assms(1) unfolding filtfilt_def Let_def e
    by (auto split: if_splits sum.splits)
qed

lemma forward_backward_nonempty:
  assumes "forward_backward lfilter_zi b a ext = Inr full"
  shows "b \<noteq> []"
  using assms
  by (auto simp: forward_backward_def lfilter_def Let_def split: sum.splits prod.splits if_splits)

lemma filtfilt_length:
  assumes "filtfilt lfilter_zi b a x = Inr y"
  shows "length y = length x"
proof -
  define edge where "edge = 3 * max (length b) (length a)"
  obtain ext full where lt: "edge < length x"
    and ext: "(if 0 < edge then odd_ext x edge else Inr x) = Inr ext"
    and full: "forward_backward lfilter_zi b a ext = Inr full"
    and y: "y = (if 0 < edge then take (length full - edge - edge) (drop edge full) else full)"
    using filtfilt_Inr [OF assms edge_def] by blast
  have lf: "length full = length ext" using forward_backward_length [OF full] .
  show ?thesis
  proof (cases "0 < edge")
    case True
    then obtain ext' where "odd_ext x edge = Inr ext'" "length ext' = length x + 2 * edge"
      using odd_ext_ok [OF True lt] by blast
    then have "length ext = length x + 2 * edge" using ext True by simp
    then show ?thesis using y lf True by simp
  next
    case False
    then show ?thesis using y lf ext by simp
  qed
qed

lemma filtfilt_ok:
  assumes "b \<noteq> []" and "a \<noteq> []" and "a ! 0 \<noteq> 0"
    and "lfilter_zi b a = Inr zi" and "length zi = max (length a) (length b) - 1"
    and "3 * max (length b) (length a) < length x"
  shows "\<exists>y. filtfilt lfilter_zi b a x = Inr y"
proof -
  define edge where "edge = 3 * max (length b) (length a)"
  have e: "max (length a) (length b) * 3 = edge"
    using edge_def by (simp add: max.commute mult.commute)
  have pos: "0 < edge" using assms(1) edge_def by (cases b) simp_all
  have lt: "edge < length x" using assms(6) edge_def by simp
  obtain ext where ext: "odd_ext x edge = Inr ext"
    using odd_ext_ok [OF pos lt] by blast
  obtain full where full: "forward_backward lfilter_zi b a ext = Inr full"
    using forward_backward_ok [where lfilter_zi = lfilter_zi and zi = zi and ext = ext,
        OF assms(1-5)] by blast
  show ?thesis
    using pos lt ext full unfolding filtfilt_def Let_def e by simp
qed

lemma iirnotch_Inr_shape:
  assumes "iirnotch w0 Q = Inr (b, a)"
  shows "length b = 3 \<and> length a = 3 \<and> a ! 0 = 1"
  using assms unfolding iirnotch_cases by (auto split: if_splits)

lemma notch_design_Inr_shape:
  assumes "notch_design freq_to_remove sample_rate q_factor = Inr (b, a)"
  shows "length b = 3 \<and> length a = 3 \<and> a ! 0 = 1"
  using assms iirnotch_Inr_shape
  by (auto simp: notch_design_def Let_def split: if_splits)

lemma apply_notch_filter_Inr:
  assumes "apply_notch_filter lfilter_zi x freq_to_remove sample_rate q_factor = Inr y"
  shows "\<exists>b a. notch_design freq_to_remove sample_rate q_factor = Inr (b, a) \<and>
               filtfilt lfilter_zi b a x = Inr y"
  using assms by (auto simp: apply_notch_filter_def split: sum.splits)

lemma apply_lowpass_filter_Inr:
  assumes "apply_lowpass_filter butter lfilter_zi x cutoff_freq sample_rate order = Inr y"
  shows "\<exists>b a. filtfilt lfilter_zi b a x = Inr y"
  using assms by (auto simp: apply_lowpass_filter_def Let_def split: sum.splits if_splits)

lemma lfilter_run_identity: "lfilter_run [1] [1] [] xs = (xs, [])"
  by (induction xs) simp_all

lemma lfilter_identity: "lfilter [1] [1] xs [] = Inr (xs, [])"
  by (simp add: lfilter_def lfilter_run_identity)

lemma forward_backward_identity: "forward_backward (\<lambda>b a. Inr []) [1] [1] ext = Inr ext"
  by (simp add: forward_backward_def lfilter_identity)

lemma odd_ext_example: "odd_ext [1, 2, 3, 4] 3 = Inr [- 2, - 1, 0, 1, 2, 3, 4, 5, 6, 7]"
  by (simp add: odd_ext_def upt_conv_Cons)

lemma filtfilt_identity_example:
  "filtfilt (\<lambda>b a. Inr []) [1] [1] [1, 2, 3, 4] = Inr [1, 2, 3, 4]"
  by (simp add: filtfilt_def forward_backward_identity odd_ext_example)

text \<open>
  Claim C3. Whenever the zero-phase filter returns a sequence, that sequence has exactly
  the length of the input: for \<open>filtfilt\<close> with any coefficients, for the notch stage and
  for the low-pass stage.
\<close>

theorem zero_phase_preserves_length:
  "(filtfilt lfilter_zi b a x = Inr y \<longrightarrow> length y = length x) \<and>
   (apply_notch_filter lfilter_zi x freq_to_remove sample_rate q_factor = Inr y' \<longrightarrow>
      length y' = length x) \<and>
   (apply_lowpass_filter butter lfilter_zi x cutoff_freq sample_rate order = Inr y'' \<longrightarrow>
      length y'' = length x)"
proof -
  have plain: "length y = length x" if "filtfilt lfilter_zi b a x = Inr y"
    using filtfilt_length [OF that] .
  have notch: "length y' = length x"
    if run: "apply_notch_filter lfilter_zi x freq_to_remove sample_rate q_factor = Inr y'"
  proof -
    obtain bn an where "filtfilt lfilter_zi bn an x = Inr y'"
      using apply_notch_filter_Inr [OF run] by blast
    then show ?thesis by (rule filtfilt_length)
  qed
  have low: "length y'' = length x"
    if run: "apply_lowpass_filter butter lfilter_zi x cutoff_freq sample_rate order = Inr y''"
  proof -
    obtain bl al where "filtfilt lfilter_zi bl al x = Inr y''"
      using apply_lowpass_filter_Inr [OF run] by blast
    then show ?thesis by (rule filtfilt_length)
  qed
  show ?thesis using plain notch low by blast
qed

theorem zero_phase_preserves_length_witness:
  "filtfilt (\<lambda>b a. Inr []) [1] [1] [1, 2, 3, 4] = Inr [1, 2, 3, 4] \<and>
   length [1, 2, 3, 4 :: real] = 4 \<and>
   (\<exists>y. apply_notch_filter (\<lambda>b a. Inr [1 - b ! 0, 1 - b ! 0])
           [0, 1, 2, 3, 4, 5, 6, 7, 8, 9] 15 200 30 = Inr y \<and> length y = 10) \<and>
   (\<exists>y. apply_lowpass_filter (\<lambda>order wn. Inr ([1 / 2, 1 / 2], [1, 0])) (\<lambda>b a. Inr [1 / 2])
           [0, 1, 2, 3, 4, 5, 6] 50 200 1 = Inr y \<and> length y = 7)"
proof -
  let ?z1 = "(\<lambda>b a. Inr []) :: real list \<Rightarrow> real list \<Rightarrow> py_error + real list"
  let ?z2 = "(\<lambda>b a. Inr [1 - b ! 0, 1 - b ! 0]) :: real list \<Rightarrow> real list \<Rightarrow> py_error + real list"
  let ?z3 = "(\<lambda>b a. Inr [1 / 2]) :: real list \<Rightarrow> real list \<Rightarrow> py_error + real list"
  let ?butter = "(\<lambda>order wn. Inr ([1 / 2, 1 / 2], [1, 0])) ::
                   int \<Rightarrow> real \<Rightarrow> py_error + (real list \<times> real list)"
  let ?x10 = "[0, 1, 2, 3, 4, 5, 6, 7, 8, 9] :: real list"
  let ?x7 = "[0, 1, 2, 3, 4, 5, 6] :: real list"
  have one: "filtfilt ?z1 [1] [1] [1, 2, 3, 4] = Inr [1, 2, 3, 4]"
    by (rule filtfilt_identity_example)
  have len1: "length [1, 2, 3, 4 :: real] = 4"
    using one
      zero_phase_preserves_length [where lfilter_zi = ?z1 and b = "[1]" and a = "[1]"
        and x = "[1, 2, 3, 4]" and y = "[1, 2, 3, 4]"]
    by simp
  obtain bn an where nd: "notch_design 15 200 30 = Inr (bn, an)"
    and shape: "length bn = 3" "length an = 3" "an ! 0 = 1"
    using iirnotch_Inr [of "15 / (200 / 2)" 30] notch_design_eq [of 200 15 30] by auto
  have "\<exists>y. filtfilt ?z2 bn an ?x10 = Inr y"
    by (rule filtfilt_ok [where zi = "[1 - bn ! 0, 1 - bn ! 0]"]) (use shape in auto)
  then obtain y2 where y2: "apply_notch_filter ?z2 ?x10 15 200 30 = Inr y2"
    using nd by (auto simp: apply_notch_filter_def)
  have len2: "length y2 = 10"
    using y2
      zero_phase_preserves_length [where lfilter_zi = ?z2 and x = ?x10 and freq_to_remove = 15
        and sample_rate = 200 and q_factor = 30 and y' = y2]
    by simp
  have "\<exists>y. filtfilt ?z3 [1 / 2, 1 / 2] [1, 0] ?x7 = Inr y"
    by (rule filtfilt_ok [where zi = "[1 / 2]"]) simp_all
  then obtain y3 where y3: "apply_lowpass_filter ?butter ?z3 ?x7 50 200 1 = Inr y3"
    by (auto simp: apply_lowpass_filter_def Let_def)
  have len3: "length y3 = 7"
    using y3
      zero_phase_preserves_length [where lfilter_zi = ?z3 and x = ?x7 and butter = ?butter
        and cutoff_freq = 50 and sample_rate = 200 and order = 1 and y'' = y3]
    by simp
  show ?thesis using one len1 y2 len2 y3 len3 by blast
qed

text \<open>
  Claim C9. With \<open>edge = 3 * max (len b) (len a)\<close>, the zero-phase filter fails (the
  ValueError of \<open>filtfilt\<close>) whenever the input is not strictly longer than \<open>edge\<close>. When it
  returns, the input was extended by \<open>edge\<close> samples at each end, the left ones being the
  samples \<open>x[edge], .., x[1]\<close> reflected about \<open>x[0]\<close> and the right ones the samples
  \<open>x[N-2], .., x[N-1-edge]\<close> reflected about \<open>x[N-1]\<close>; both passes ran over the extended
  sequence; and the result is the middle part, with \<open>edge\<close> samples removed at each end.
  Both stages call \<open>filtfilt\<close> with the coefficients just designed; for the notch stage
  \<open>edge\<close> is 9.
\<close>

theorem zero_phase_padding:
  assumes "edge = 3 * max (length b) (length a)"
  shows "(length x \<le> edge \<longrightarrow> filtfilt lfilter_zi b a x = Inl ValueError) \<and>
         (filtfilt lfilter_zi b a x = Inr y \<longrightarrow>
            edge < length x \<and>
            (\<exists>ext full.
               odd_ext x edge = Inr ext \<and>
               length ext = edge + length x + edge \<and>
               (\<forall>i < edge. ext ! i = 2 * x ! 0 - x ! (edge - i)) \<and>
               (\<forall>i < length x. ext ! (edge + i) = x ! i) \<and>
               (\<forall>i < edge. ext ! (edge + length x + i) =
                              2 * x ! (length x - 1) - x ! (length x - 2 - i)) \<and>
               forward_backward lfilter_zi b a ext = Inr full \<and>
               length full = length ext \<and>
               y = take (length x) (drop edge full))) \<and>
         (notch_design freq_to_remove sample_rate q_factor = Inr (b, a) \<longrightarrow>
            edge = 9 \<and>
            apply_notch_filter lfilter_zi x freq_to_remove sample_rate q_factor =
              filtfilt lfilter_zi b a x) \<and>
         (sample_rate \<noteq> 0 \<and> butter order (cutoff_freq / (sample_rate / 2)) = Inr (b, a) \<longrightarrow>
            apply_lowpass_filter butter lfilter_zi x cutoff_freq sample_rate order =
              filtfilt lfilter_zi b a x)"
proof -
  have short: "length x \<le> edge \<longrightarrow> filtfilt lfilter_zi b a x = Inl ValueError"
    using filtfilt_short assms by simp
  have padded: "edge < length x \<and>
      (\<exists>ext full.
         odd_ext x edge = Inr ext \<and>
         length ext = edge + length x + edge \<and>
         (\<forall>i < edge. ext ! i = 2 * x ! 0 - x ! (edge - i)) \<and>
         (\<forall>i < length x. ext ! (edge + i) = x ! i) \<and>
         (\<forall>i < edge. ext ! (edge + length x + i) =
                        2 * x ! (length x - 1) - x ! (length x - 2 - i)) \<and>
         forward_backward lfilter_zi b a ext = Inr full \<and>
         length full = length ext \<and>
         y = take (length x) (drop edge full))"
    if ok: "filtfilt lfilter_zi b a x = Inr y"
  proof -
    obtain ext full where lt: "edge < length x"
      and ext: "(if 0 < edge then odd_ext x edge else Inr x) = Inr ext"
      and full: "forward_backward lfilter_zi b a ext = Inr full"
      and y: "y = (if 0 < edge then take (length full - edge - edge) (drop edge full) else full)"
      using filtfilt_Inr [OF ok assms] by blast
    have "b \<noteq> []" using forward_backward_nonempty [OF full] .
    then have pos: "0 < edge" using assms by (cases b) simp_all
    obtain ext' where e: "odd_ext x edge = Inr ext'" "length ext' = length x + 2 * edge"
      "\<forall>i < edge. ext' ! i = 2 * x ! 0 - x ! (edge - i)"
      "\<forall>i < length x. ext' ! (edge + i) = x ! i"
      "\<forall>i < edge. ext' ! (edge + length x + i) =
                     2 * x ! (length x - 1) - x ! (length x - 2 - i)"
      using odd_ext_ok [OF pos lt] by blast
    have same: "ext' = ext" using e(1) ext pos by simp
    have lf: "length full = length ext" using forward_backward_length [OF full] .
    have le: "length ext = edge + length x + edge" using e(2) same by simp
    have "y = take (length x) (drop edge full)" using y pos lf le by simp
    then show ?thesis using lt e same full lf le by blast
  qed
  have notch: "edge = 9 \<and>
      apply_notch_filter lfilter_zi x freq_to_remove sample_rate q_factor =
        filtfilt lfilter_zi b a x"
    if nd: "notch_design freq_to_remove sample_rate q_factor = Inr (b, a)"
    using notch_design_Inr_shape [OF nd] nd assms by (simp add: apply_notch_filter_def)
  have low: "apply_lowpass_filter butter lfilter_zi x cutoff_freq sample_rate order =
        filtfilt lfilter_zi b a x"
    if "sample_rate \<noteq> 0 \<and> butter order (cutoff_freq / (sample_rate / 2)) = Inr (b, a)"
    using that by (simp add: apply_lowpass_filter_def Let_def)
  show ?thesis using short padded notch low by blast
qed

theorem zero_phase_padding_witness:
  "filtfilt (\<lambda>b a. Inr []) [1] [1] [1, 2, 3] = Inl ValueError \<and>
   filtfilt (\<lambda>b a. Inr []) [1] [1] [1, 2, 3, 4] = Inr [1, 2, 3, 4] \<and>
   (\<exists>ext full. odd_ext [1, 2, 3, 4] 3 = Inr ext \<and> length ext = 10 \<and>
      ext ! 0 = - 2 \<and> ext ! 3 = 1 \<and> ext ! 7 = 5 \<and>
      forward_backward (\<lambda>b a. Inr []) [1] [1] ext = Inr full \<and>
      [1, 2, 3, 4] = take 4 (drop 3 full))"
proof -
  let ?z = "(\<lambda>b a. Inr []) :: real list \<Rightarrow> real list \<Rightarrow> py_error + real list"
  have e: "(3 :: nat) = 3 * max (length [1 :: real]) (length [1 :: real])" by simp
  have ok: "filtfilt ?z [1] [1] [1, 2, 3, 4] = Inr [1, 2, 3, 4]"
    by (rule filtfilt_identity_example)
  have short: "filtfilt ?z [1] [1] [1, 2, 3] = Inl ValueError"
    using zero_phase_padding [OF e, of "[1, 2, 3]" ?z] by simp
  obtain ext full where p: "odd_ext [1, 2, 3, 4] 3 = Inr ext"
    "length ext = 3 + length [1, 2, 3, 4 :: real] + 3"
    "\<forall>i < 3. ext ! i = 2 * [1, 2, 3, 4] ! 0 - [1, 2, 3, 4] ! (3 - i)"
    "\<forall>i < length [1, 2, 3, 4 :: real]. ext ! (3 + i) = [1, 2, 3, 4] ! i"
    "\<forall>i < 3. ext ! (3 + length [1, 2, 3, 4 :: real] + i) =
       2 * [1, 2, 3, 4] ! (length [1, 2, 3, 4 :: real] - 1) -
       [1, 2, 3, 4] ! (length [1, 2, 3, 4 :: real] - 2 - i)"
    "forward_backward ?z [1] [1] ext = Inr full"
    "[1, 2, 3, 4] = take (length [1, 2, 3, 4 :: real]) (drop 3 full)"
    using zero_phase_padding [OF e, of "[1, 2, 3, 4]" ?z "[1, 2, 3, 4]"] ok by blast
  have "ext ! 0 = - 2" using p(3) by simp
  moreover have "ext ! 3 = 1" using p(4) by force
  moreover have "ext ! 7 = 5" using p(5) by force
  moreover have "length ext = 10" using p(2) by simp
  moreover have "[1, 2, 3, 4] = take 4 (drop 3 full)"
  proof -
    have l4: "length [1, 2, 3, 4 :: real] = 4" by simp
    show ?thesis using p(7) unfolding l4 .
  qed
  ultimately show ?thesis using short ok p(1) p(6) by blast
qed




end
